theory Spec2Isabelle
  imports Complex_Main
begin

section \<open>KZG opening proofs: data model\<close>

text \<open>
  The development follows \<^verbatim>\<open>internal/kzg/kzg.go\<close>. Scalars (\<^verbatim>\<open>fr.Element\<close>) are the
  elements of a type \<open>'f\<close>, the points of the two source groups (\<^verbatim>\<open>curve.G1Affine\<close>,
  \<^verbatim>\<open>curve.G1Jac\<close> and \<^verbatim>\<open>curve.G2Affine\<close>, \<^verbatim>\<open>curve.G2Jac\<close>) are the elements of types
  \<open>'g1\<close> and \<open>'g2\<close>. Field and group arithmetic (\<^verbatim>\<open>Add\<close>, \<^verbatim>\<open>Sub\<close>, \<^verbatim>\<open>Neg\<close>, \<^verbatim>\<open>Mul\<close>,
  \<^verbatim>\<open>SetOne\<close>, the zero value) is the arithmetic of these types; the affine and the
  Jacobian form of a point are two representations of the same group element, so
  \<^verbatim>\<open>FromAffine\<close> and \<^verbatim>\<open>FromJacobian\<close> are the identity.
\<close>

text \<open>
  A Go \<^verbatim>\<open>error\<close> value: the four package-level errors, an error made on the spot with
  \<^verbatim>\<open>errors.New\<close>, and an error handed back by the gnark-crypto engine or by the
  random source. A function returning \<^verbatim>\<open>error\<close> returns an \<open>error option\<close>, \<open>None\<close> for
  \<^verbatim>\<open>nil\<close>.
\<close>

datatype error =
    ErrInvalidNbDigests
  | ErrInvalidPolynomialSize
  | ErrVerifyOpeningProof
  | ErrVerifyBatchOpeningSinglePoint
  | ErrorsNew string
  | EngineError string

text \<open>A call either returns or panics on an index out of range.\<close>

datatype 'a outcome = Returns 'a | Panics

record ('f, 'g1) OpeningProof =
  QuotientComm :: 'g1
  InputPoint :: 'f
  ClaimedValue :: 'f

text \<open>
  \<^verbatim>\<open>OpeningKey\<close>, \<^verbatim>\<open>CommitKey\<close> and \<^verbatim>\<open>Domain\<close> are declared in other files of the package;
  the records hold the fields that \<^verbatim>\<open>kzg.go\<close> reads. \<^verbatim>\<open>Cardinality\<close> is a \<^verbatim>\<open>uint64\<close>
  compared with \<^verbatim>\<open>uint64(len(f))\<close>; a slice length is never negative and fits 64 bits,
  so the conversion is exact and both sides are natural numbers.
\<close>

record ('g1, 'g2) OpeningKey =
  GenG1 :: 'g1
  GenG2 :: 'g2
  AlphaG2 :: 'g2

record 'g1 CommitKey =
  G1 :: "'g1 list"

record 'f Domain =
  Cardinality :: nat
  Roots :: "'f list"

text \<open>
  The operations of the curve package that \<^verbatim>\<open>kzg.go\<close> calls and that are more than group
  arithmetic. \<open>ScalarMultiplicationG1 E p s\<close> is \<^verbatim>\<open>ScalarMultiplication(&p, s.BigInt())\<close>,
  \<open>MultiExp\<close> and \<open>PairingCheck\<close> may hand back an error.
\<close>

record ('f, 'g1, 'g2) curve =
  ScalarMultiplicationG1 :: "'g1 \<Rightarrow> 'f \<Rightarrow> 'g1"
  ScalarMultiplicationG2 :: "'g2 \<Rightarrow> 'f \<Rightarrow> 'g2"
  MultiExp :: "'g1 list \<Rightarrow> 'f list \<Rightarrow> error + 'g1"
  PairingCheck :: "'g1 list \<Rightarrow> 'g2 list \<Rightarrow> error + bool"

section \<open>Single-proof verification\<close>

text \<open>The three pointers \<^verbatim>\<open>commitment\<close>, \<^verbatim>\<open>proof\<close>, \<^verbatim>\<open>open_key\<close> are not nil.\<close>

definition Verify ::
  "('f, 'g1::ab_group_add, 'g2::ab_group_add) curve \<Rightarrow> 'g1 \<Rightarrow> ('f, 'g1) OpeningProof \<Rightarrow>
     ('g1, 'g2) OpeningKey \<Rightarrow> error option" where
  "Verify E commitment prf open_key =
    (let claimedValueG1Aff = ScalarMultiplicationG1 E (GenG1 open_key) (ClaimedValue prf);
         fminusfaG1Jac = commitment - claimedValueG1Aff;
         negH = - QuotientComm prf;
         alphaMinusaG2Jac =
           - ScalarMultiplicationG2 E (GenG2 open_key) (InputPoint prf) + AlphaG2 open_key
     in case PairingCheck E [fminusfaG1Jac, negH] [GenG2 open_key, alphaMinusaG2Jac] of
          Inl err \<Rightarrow> Some err
        | Inr check \<Rightarrow> if \<not> check then Some ErrVerifyOpeningProof else None)"

section \<open>Batched verification\<close>

text \<open>A write \<^verbatim>\<open>xs[i] = v\<close>, which panics when \<open>i\<close> is out of range.\<close>

definition set_index :: "'a list \<Rightarrow> nat \<Rightarrow> 'a \<Rightarrow> 'a list outcome" where
  "set_index xs i v = (if i < length xs then Returns (xs[i := v]) else Panics)"

text \<open>
  The sampling loop \<^verbatim>\<open>for i := 1; i < len(randomNumbers); i++\<close>. The random source is a
  function \<open>SetRandom\<close>: \<open>SetRandom i\<close> is what the call \<^verbatim>\<open>randomNumbers[i].SetRandom()\<close>
  hands back, a scalar or an error. The loop runs over the indices still to visit.
\<close>

fun sample_loop :: "(nat \<Rightarrow> error + 'f) \<Rightarrow> nat list \<Rightarrow> 'f list \<Rightarrow> error + 'f list" where
  "sample_loop SetRandom [] randomNumbers = Inr randomNumbers"
| "sample_loop SetRandom (i # rest) randomNumbers =
     (case SetRandom i of
        Inl err \<Rightarrow> Inl err
      | Inr x \<Rightarrow> sample_loop SetRandom rest (randomNumbers[i := x]))"

text \<open>
  The first loop of \<^verbatim>\<open>fold\<close>: \<^verbatim>\<open>tmp.Mul(&evaluations[i], &factors[i])\<close> and
  \<^verbatim>\<open>foldedEvaluations.Add(&foldedEvaluations, &tmp)\<close> for the indices below
  \<^verbatim>\<open>len(digests)\<close>; reading past the end of either slice panics.
\<close>

fun fold_evaluations :: "'f::comm_ring_1 list \<Rightarrow> 'f list \<Rightarrow> nat list \<Rightarrow> 'f \<Rightarrow> 'f outcome" where
  "fold_evaluations evaluations factors [] foldedEvaluations = Returns foldedEvaluations"
| "fold_evaluations evaluations factors (i # rest) foldedEvaluations =
     (if i < length evaluations \<and> i < length factors
      then fold_evaluations evaluations factors rest
             (foldedEvaluations + evaluations ! i * factors ! i)
      else Panics)"

text \<open>
  \<^verbatim>\<open>fold\<close> of the source. When \<^verbatim>\<open>MultiExp\<close> fails the receiver \<^verbatim>\<open>foldedDigests\<close> is handed
  back as declared, the zero value.
\<close>

definition fold_kzg ::
  "('f::comm_ring_1, 'g1::ab_group_add, 'g2) curve \<Rightarrow> 'g1 list \<Rightarrow> 'f list \<Rightarrow> 'f list \<Rightarrow>
     ('g1 \<times> 'f \<times> error option) outcome" where
  "fold_kzg E digests evaluations factors =
    (let nbDigests = length digests
     in case fold_evaluations evaluations factors [0..<nbDigests] 0 of
          Panics \<Rightarrow> Panics
        | Returns foldedEvaluations \<Rightarrow>
            (case MultiExp E digests factors of
               Inl err \<Rightarrow> Returns (0, foldedEvaluations, Some err)
             | Inr foldedDigests \<Rightarrow> Returns (foldedDigests, foldedEvaluations, None)))"

text \<open>
  \<^verbatim>\<open>BatchVerifyMultiPoints\<close>. The loops that copy \<^verbatim>\<open>QuotientComm\<close> and \<^verbatim>\<open>ClaimedValue\<close> and
  the loop that multiplies \<^verbatim>\<open>randomNumbers[i]\<close> by \<^verbatim>\<open>proofs[i].InputPoint\<close> run over
  \<^verbatim>\<open>len(randomNumbers)\<close> indices, which is the length of \<^verbatim>\<open>proofs\<close> once the first check
  has passed; they are elementwise maps.
\<close>

definition BatchVerifyMultiPoints ::
  "('f::comm_ring_1, 'g1::ab_group_add, 'g2::ab_group_add) curve \<Rightarrow> (nat \<Rightarrow> error + 'f) \<Rightarrow>
     'g1 list \<Rightarrow> ('f, 'g1) OpeningProof list \<Rightarrow> ('g1, 'g2) OpeningKey \<Rightarrow>
     error option outcome" where
  "BatchVerifyMultiPoints E SetRandom commitments proofs open_key =
    (if length commitments \<noteq> length proofs then Returns (Some ErrInvalidNbDigests)
     else if length commitments = 1
       then Returns (Verify E (commitments ! 0) (proofs ! 0) open_key)
     else
       case set_index (replicate (length commitments) 0) 0 1 of
         Panics \<Rightarrow> Panics
       | Returns randomNumbers \<Rightarrow>
       (case sample_loop SetRandom [1..<length randomNumbers] randomNumbers of
         Inl err \<Rightarrow> Returns (Some err)
       | Inr randomNumbers \<Rightarrow>
       (let quotients = map QuotientComm proofs
        in case MultiExp E quotients randomNumbers of
         Inl err \<Rightarrow> Returns None
       | Inr foldedQuotients \<Rightarrow>
       (let evals = map ClaimedValue proofs
        in case fold_kzg E commitments evals randomNumbers of
         Panics \<Rightarrow> Panics
       | Returns (foldedDigests, foldedEvals, Some err) \<Rightarrow> Returns (Some err)
       | Returns (foldedDigests, foldedEvals, None) \<Rightarrow>
       (let foldedEvalsCommit = ScalarMultiplicationG1 E (GenG1 open_key) foldedEvals;
            foldedDigests = foldedDigests - foldedEvalsCommit;
            randomNumbers = map2 (\<lambda>r p. r * InputPoint p) randomNumbers proofs
        in case MultiExp E quotients randomNumbers of
         Inl err \<Rightarrow> Returns (Some err)
       | Inr foldedPointsQuotients \<Rightarrow>
       (let foldedDigests = foldedDigests + foldedPointsQuotients;
            foldedQuotients = - foldedQuotients
        in case PairingCheck E [foldedDigests, foldedQuotients]
                  [GenG2 open_key, AlphaG2 open_key] of
             Inl err \<Rightarrow> Returns (Some err)
           | Inr check \<Rightarrow>
               if \<not> check then Returns (Some ErrVerifyOpeningProof) else Returns None))))))"

section \<open>Quotient polynomial\<close>

text \<open>
  Modelled from the spec: \<^verbatim>\<open>isInDomain\<close> is a method of \<^verbatim>\<open>Domain\<close> declared in another
  file of the package. The spec gives it as: it holds iff \<open>x\<close> equals some element of
  \<^verbatim>\<open>Roots\<close>.
\<close>

definition isInDomain :: "'f Domain \<Rightarrow> 'f \<Rightarrow> bool" where
  "isInDomain domain x \<longleftrightarrow> x \<in> set (Roots domain)"

text \<open>
  The second loop of \<^verbatim>\<open>DividePolyByXminusA\<close>: \<^verbatim>\<open>denom[i].Sub(&domain.Roots[i], &a)\<close> for
  the indices below \<^verbatim>\<open>len(f)\<close>; \<^verbatim>\<open>denom\<close> has that length, \<^verbatim>\<open>Roots\<close> may be shorter and
  reading past its end panics.
\<close>

fun denom_loop :: "'f::comm_ring_1 list \<Rightarrow> 'f \<Rightarrow> nat list \<Rightarrow> 'f list \<Rightarrow> 'f list outcome" where
  "denom_loop roots a [] denom = Returns denom"
| "denom_loop roots a (i # rest) denom =
     (if i < length roots then denom_loop roots a rest (denom[i := roots ! i - a])
      else Panics)"

text \<open>
  The third loop: \<^verbatim>\<open>denom[i].Mul(&denom[i], &numer[i])\<close> on the slice that
  \<^verbatim>\<open>fr.BatchInvert\<close> handed back, whose length is the engine's choice.
\<close>

fun quotient_loop :: "'f::comm_ring_1 list \<Rightarrow> nat list \<Rightarrow> 'f list \<Rightarrow> 'f list outcome" where
  "quotient_loop numer [] denom = Returns denom"
| "quotient_loop numer (i # rest) denom =
     (if i < length denom then quotient_loop numer rest (denom[i := denom ! i * numer ! i])
      else Panics)"

text \<open>
  \<^verbatim>\<open>DividePolyByXminusA\<close>, on values. \<^verbatim>\<open>fr.BatchInvert\<close> is a parameter. The first loop
  writes \<^verbatim>\<open>f[i] - fa\<close> into a slice of the length of \<open>f\<close> and is an elementwise map. The
  result is the pair of Go: the slice (\<open>None\<close> for \<^verbatim>\<open>nil\<close>) and the error.
\<close>

definition DividePolyByXminusA ::
  "('f::comm_ring_1 list \<Rightarrow> 'f list) \<Rightarrow> 'f Domain \<Rightarrow> 'f list \<Rightarrow> 'f \<Rightarrow> 'f \<Rightarrow>
     ('f list option \<times> error option) outcome" where
  "DividePolyByXminusA BatchInvert domain f fa a =
    (if Cardinality domain \<noteq> length f
       then Returns (None, Some (ErrorsNew ''polynomial size does not match domain size''))
     else if isInDomain domain a
       then Returns (None, Some (ErrorsNew ''cannot divide by point in the domain''))
     else
       let numer = map (\<lambda>x. x - fa) f
       in case denom_loop (Roots domain) a [0..<length f] (replicate (length f) 0) of
            Panics \<Rightarrow> Panics
          | Returns denom \<Rightarrow>
              (let denom = BatchInvert denom
               in case quotient_loop numer [0..<length f] denom of
                    Panics \<Rightarrow> Panics
                  | Returns denom \<Rightarrow> Returns (Some denom, None)))"

section \<open>Opening\<close>

text \<open>
  A slice that may be \<^verbatim>\<open>nil\<close>, read as a sequence: \<^verbatim>\<open>nil\<close> has length zero.
\<close>

definition slice_of :: "'a list option \<Rightarrow> 'a list" where
  "slice_of xs = (case xs of None \<Rightarrow> [] | Some ys \<Rightarrow> ys)"

text \<open>
  \<^verbatim>\<open>OpeningProof{}\<close>: every field has its zero value.
\<close>

definition empty_OpeningProof :: "('f::zero, 'g1::zero) OpeningProof" where
  "empty_OpeningProof = \<lparr> QuotientComm = 0, InputPoint = 0, ClaimedValue = 0 \<rparr>"

text \<open>
  \<^verbatim>\<open>Open\<close>. \<^verbatim>\<open>EvaluateLagrangePolynomial\<close> and \<^verbatim>\<open>Commit\<close> live in other files of the
  package and are parameters here: functions that hand back a value or an error and
  leave their arguments as they are. The pointers \<^verbatim>\<open>domain\<close> and \<^verbatim>\<open>ck\<close> are not nil.
\<close>

definition Open ::
  "('f::comm_ring_1 list \<Rightarrow> 'f list) \<Rightarrow> ('f Domain \<Rightarrow> 'f list \<Rightarrow> 'f \<Rightarrow> error + 'f) \<Rightarrow>
     ('f list \<Rightarrow> 'g1 CommitKey \<Rightarrow> error + 'g1::zero) \<Rightarrow>
     'f Domain \<Rightarrow> 'f list \<Rightarrow> 'f \<Rightarrow> 'g1 CommitKey \<Rightarrow>
     (('f, 'g1) OpeningProof \<times> error option) outcome" where
  "Open BatchInvert EvaluateLagrangePolynomial Commit domain p point ck =
    (if length p = 0 \<or> length p > length (G1 ck)
       then Returns (empty_OpeningProof, Some ErrInvalidPolynomialSize)
     else
       case EvaluateLagrangePolynomial domain p point of
         Inl err \<Rightarrow> Returns (empty_OpeningProof, Some err)
       | Inr output_point \<Rightarrow>
       (let res = \<lparr> QuotientComm = 0, InputPoint = point, ClaimedValue = output_point \<rparr>
        in case DividePolyByXminusA BatchInvert domain p (ClaimedValue res) point of
         Panics \<Rightarrow> Panics
       | Returns (quotient_poly, Some err) \<Rightarrow> Returns (empty_OpeningProof, Some err)
       | Returns (quotient_poly, None) \<Rightarrow>
       (case Commit (slice_of quotient_poly) ck of
         Inl err \<Rightarrow> Returns (empty_OpeningProof, Some err)
       | Inr quotientCommit \<Rightarrow> Returns (res \<lparr> QuotientComm := quotientCommit \<rparr>, None))))"

section \<open>The quotient polynomial on a store\<close>

text \<open>
  A Go slice shares its backing array with the caller, so whether
  \<^verbatim>\<open>DividePolyByXminusA\<close> changes \<open>f\<close> or \<^verbatim>\<open>Roots\<close> is a question about memory. Here the
  function runs on a store, a list of arrays; the address of an array is its position
  in the list and a slice is the address of the array it spans. \<^verbatim>\<open>make\<close> appends a
  zeroed array and hands back its address. \<open>f\<close> and \<open>roots\<close> may be the same address.
\<close>

type_synonym 'f store = "'f list list"

definition make :: "'f::zero store \<Rightarrow> nat \<Rightarrow> 'f store \<times> nat" where
  "make s n = (s @ [replicate n 0], length s)"

text \<open>
  The three loops, each writing one element of one array per step.
\<close>

fun numer_loop_st :: "nat \<Rightarrow> 'f::comm_ring_1 \<Rightarrow> nat \<Rightarrow> nat list \<Rightarrow> 'f store \<Rightarrow> 'f store" where
  "numer_loop_st f fa numer [] s = s"
| "numer_loop_st f fa numer (i # rest) s =
     numer_loop_st f fa numer rest (s[numer := (s ! numer)[i := s ! f ! i - fa]])"

fun denom_loop_st ::
  "nat \<Rightarrow> 'f::comm_ring_1 \<Rightarrow> nat \<Rightarrow> nat list \<Rightarrow> 'f store \<Rightarrow> 'f store \<times> bool" where
  "denom_loop_st roots a denom [] s = (s, True)"
| "denom_loop_st roots a denom (i # rest) s =
     (if i < length (s ! roots)
      then denom_loop_st roots a denom rest (s[denom := (s ! denom)[i := s ! roots ! i - a]])
      else (s, False))"

fun quotient_loop_st ::
  "nat \<Rightarrow> nat \<Rightarrow> nat list \<Rightarrow> 'f::comm_ring_1 store \<Rightarrow> 'f store \<times> bool" where
  "quotient_loop_st numer denom [] s = (s, True)"
| "quotient_loop_st numer denom (i # rest) s =
     (if i < length (s ! denom)
      then quotient_loop_st numer denom rest
             (s[denom := (s ! denom)[i := s ! denom ! i * s ! numer ! i]])
      else (s, False))"

text \<open>
  \<^verbatim>\<open>DividePolyByXminusA\<close> on the store. \<^verbatim>\<open>domain\<close> is passed by value: its cardinality
  and the address of \<^verbatim>\<open>Roots\<close>. \<^verbatim>\<open>fr.BatchInvert\<close> reads \<^verbatim>\<open>denom\<close> and hands back a slice
  of its own, which the third loop then writes. The function hands back the final
  store with its result; on a panic, the store as it was then.
\<close>

definition DividePolyByXminusA_st ::
  "('f::comm_ring_1 list \<Rightarrow> 'f list) \<Rightarrow> 'f store \<Rightarrow> nat \<Rightarrow> nat \<Rightarrow> nat \<Rightarrow> 'f \<Rightarrow> 'f \<Rightarrow>
     'f store \<times> (nat option \<times> error option) outcome" where
  "DividePolyByXminusA_st BatchInvert s cardinality roots f fa a =
    (if cardinality \<noteq> length (s ! f)
       then (s, Returns (None, Some (ErrorsNew ''polynomial size does not match domain size'')))
     else if isInDomain \<lparr> Cardinality = cardinality, Roots = s ! roots \<rparr> a
       then (s, Returns (None, Some (ErrorsNew ''cannot divide by point in the domain'')))
     else
       let n = length (s ! f);
           (s, numer) = make s n;
           s = numer_loop_st f fa numer [0..<n] s;
           (s, denom) = make s n
       in case denom_loop_st roots a denom [0..<n] s of
            (s, False) \<Rightarrow> (s, Panics)
          | (s, True) \<Rightarrow>
              (let (s, denom) = (s @ [BatchInvert (s ! denom)], length s)
               in case quotient_loop_st numer denom [0..<n] s of
                    (s, False) \<Rightarrow> (s, Panics)
                  | (s, True) \<Rightarrow> (s, Returns (Some denom, None))))"

text \<open>
  \<open>extends s s'\<close>: every array of \<open>s\<close> is in \<open>s'\<close> at the same address with the same
  content.
\<close>

definition extends :: "'f store \<Rightarrow> 'f store \<Rightarrow> bool" where
  "extends s s' \<longleftrightarrow> length s \<le> length s' \<and> take (length s) s' = s"

section \<open>What the engine is assumed to compute\<close>

text \<open>
  The properties below that speak of sums of scalar multiples, of a pairing product or
  of inverses need to know what the engine's operations compute. \<open>e\<close> is the pairing.
  A pairing check that hands back a boolean hands back whether the product of the
  pairings is one; a multi-scalar multiplication on slices of equal length hands back
  the sum of the scalar multiples; batch inversion of nonzero scalars inverts each.
\<close>

definition PairingCheck_computes ::
  "('f, 'g1, 'g2) curve \<Rightarrow> ('g1 \<Rightarrow> 'g2 \<Rightarrow> 'gt::monoid_mult) \<Rightarrow> bool" where
  "PairingCheck_computes E e \<longleftrightarrow>
     (\<forall>P Q check. PairingCheck E P Q = Inr check \<longrightarrow> check = (prod_list (map2 e P Q) = 1))"

definition MultiExp_computes :: "('f, 'g1::ab_group_add, 'g2) curve \<Rightarrow> bool" where
  "MultiExp_computes E \<longleftrightarrow>
     (\<forall>points scalars. length points = length scalars \<longrightarrow>
        MultiExp E points scalars
          = Inr (\<Sum>i<length points. ScalarMultiplicationG1 E (points ! i) (scalars ! i)))"

definition BatchInvert_inverts :: "('f::field list \<Rightarrow> 'f list) \<Rightarrow> bool" where
  "BatchInvert_inverts BatchInvert \<longleftrightarrow>
     (\<forall>xs. 0 \<notin> set xs \<longrightarrow> BatchInvert xs = map inverse xs)"

text \<open>
  The two group elements of the batched pairing check as the specification writes
  them, for scalars \<open>r\<close>: the folded quotient \<open>\<Sum> r[i] QuotientComm[i]\<close> and
  \<open>F = \<Sum> r[i] commitment[i] - (\<Sum> r[i] ClaimedValue[i]) GenG1
       + \<Sum> (r[i] InputPoint[i]) QuotientComm[i]\<close>.
\<close>

definition folded_quotient_spec ::
  "('f, 'g1::ab_group_add, 'g2) curve \<Rightarrow> 'f list \<Rightarrow> ('f, 'g1) OpeningProof list \<Rightarrow> 'g1" where
  "folded_quotient_spec E r proofs =
     (\<Sum>i<length proofs. ScalarMultiplicationG1 E (QuotientComm (proofs ! i)) (r ! i))"

definition F_spec ::
  "('f::comm_ring_1, 'g1::ab_group_add, 'g2) curve \<Rightarrow> 'f list \<Rightarrow> 'g1 list \<Rightarrow>
     ('f, 'g1) OpeningProof list \<Rightarrow> ('g1, 'g2) OpeningKey \<Rightarrow> 'g1" where
  "F_spec E r commitments proofs open_key =
     (\<Sum>i<length proofs. ScalarMultiplicationG1 E (commitments ! i) (r ! i))
     - ScalarMultiplicationG1 E (GenG1 open_key)
         (\<Sum>i<length proofs. r ! i * ClaimedValue (proofs ! i))
     + (\<Sum>i<length proofs.
          ScalarMultiplicationG1 E (QuotientComm (proofs ! i)) (r ! i * InputPoint (proofs ! i)))"

section \<open>Small instances\<close>

text \<open>
  A toy instance for concrete runs: scalars and both groups are the integers under
  addition with generator 1, the pairing sends \<open>(x, y)\<close> to \<open>2\<close> to the power \<open>x * y\<close> in
  the rationals, and the multi-scalar multiplication and the pairing check refuse
  slices of different lengths.
\<close>

definition toy_pairing :: "int \<Rightarrow> int \<Rightarrow> rat" where
  "toy_pairing x y = 2 powi (x * y)"

definition toy_curve :: "(int, int, int) curve" where
  "toy_curve =
    \<lparr> ScalarMultiplicationG1 = (\<lambda>p s. s * p),
      ScalarMultiplicationG2 = (\<lambda>q s. s * q),
      MultiExp = (\<lambda>points scalars.
        if length points \<noteq> length scalars then Inl (EngineError ''len(points) != len(scalars)'')
        else Inr (\<Sum>i<length points. scalars ! i * points ! i)),
      PairingCheck = (\<lambda>P Q.
        if length P \<noteq> length Q then Inl (EngineError ''invalid inputs sizes'')
        else Inr (prod_list (map2 toy_pairing P Q) = 1)) \<rparr>"

text \<open>The key of the toy instance for the secret \<open>5\<close>.\<close>

definition toy_key :: "(int, int) OpeningKey" where
  "toy_key = \<lparr> GenG1 = 1, GenG2 = 1, AlphaG2 = 5 \<rparr>"

text \<open>An engine like \<open>toy_curve\<close> whose multi-scalar multiplication always fails.\<close>

definition failing_msm_curve :: "(int, int, int) curve" where
  "failing_msm_curve = toy_curve \<lparr> MultiExp := (\<lambda>points scalars. Inl (EngineError ''msm'')) \<rparr>"

definition toy_random :: "nat \<Rightarrow> error + int" where
  "toy_random i = Inr (int i + 2)"

definition failing_random :: "nat \<Rightarrow> error + int" where
  "failing_random i = Inl (EngineError ''rand'')"

text \<open>
  Two valid openings in the toy instance: \<open>X\<^sup>2 + 1\<close> (commitment 26) opened at 2 with
  value 5 and quotient \<open>X + 2\<close>, and \<open>2 X\<close> (commitment 10) opened at 0 with value 0
  and quotient 2.
\<close>

definition toy_commitments :: "int list" where
  "toy_commitments = [26, 10]"

definition toy_proofs :: "(int, int) OpeningProof list" where
  "toy_proofs = [\<lparr>QuotientComm = 7, InputPoint = 2, ClaimedValue = 5\<rparr>,
                 \<lparr>QuotientComm = 2, InputPoint = 0, ClaimedValue = 0\<rparr>]"

text \<open>
  A toy instance over the rationals: the domain of the two square roots of one, the
  commit key of the two Lagrange polynomials \<open>(X + 1) / 2\<close> and \<open>(1 - X) / 2\<close> at the
  secret 5, an evaluation by the barycentric formula, a commitment as the sum of the
  scalar multiples of the key, and a store holding the polynomial \<open>[3, 7]\<close> at address
  0 and the roots at address 1.
\<close>

definition toy_domain :: "rat Domain" where
  "toy_domain = \<lparr> Cardinality = 2, Roots = [1, - 1] \<rparr>"

definition toy_commit_key :: "rat CommitKey" where
  "toy_commit_key = \<lparr> G1 = [3, - 2] \<rparr>"

definition toy_EvaluateLagrangePolynomial :: "rat Domain \<Rightarrow> rat list \<Rightarrow> rat \<Rightarrow> error + rat" where
  "toy_EvaluateLagrangePolynomial domain p point =
     (if length p \<noteq> Cardinality domain \<or> length (Roots domain) \<noteq> Cardinality domain
        then Inl (ErrorsNew ''polynomial size does not match domain size'')
      else Inr ((point ^ Cardinality domain - 1) / of_nat (Cardinality domain)
                * (\<Sum>i<length p. p ! i * Roots domain ! i / (point - Roots domain ! i))))"

definition toy_Commit :: "rat list \<Rightarrow> rat CommitKey \<Rightarrow> error + rat" where
  "toy_Commit p ck =
     (if length p = 0 \<or> length p > length (G1 ck) then Inl ErrInvalidPolynomialSize
      else Inr (\<Sum>i<length p. p ! i * G1 ck ! i))"

definition toy_store :: "rat store" where
  "toy_store = [[3, 7], [1, - 1]]"

section \<open>The toy engine computes what is assumed\<close>

lemma toy_PairingCheck_computes: "PairingCheck_computes toy_curve toy_pairing"
  by (simp add: PairingCheck_computes_def toy_curve_def)

lemma toy_MultiExp_computes: "MultiExp_computes toy_curve"
  by (simp add: MultiExp_computes_def toy_curve_def)

lemma BatchInvert_inverts_map_inverse: "BatchInvert_inverts (map inverse)"
  by (simp add: BatchInvert_inverts_def)

section \<open>Single-proof verification: the pairing equation\<close>

text \<open>
  C3: \<open>Verify\<close> hands the engine the pairs
  \<open>(commitment - ClaimedValue GenG1, GenG2)\<close> and
  \<open>(- QuotientComm, AlphaG2 - InputPoint GenG2)\<close>. An error of the pairing check is
  returned as it is. When the check hands back a boolean, \<open>Verify\<close> returns \<^verbatim>\<open>nil\<close>
  iff the product of the two pairings is one, and \<open>ErrVerifyOpeningProof\<close> when it is
  not.
\<close>

theorem Verify_pairing_equation:
  fixes e :: "'g1::ab_group_add \<Rightarrow> 'g2::ab_group_add \<Rightarrow> 'gt::monoid_mult"
  assumes "PairingCheck_computes E e"
  shows "(\<forall>err. PairingCheck E
              [commitment - ScalarMultiplicationG1 E (GenG1 open_key) (ClaimedValue prf),
               - QuotientComm prf]
              [GenG2 open_key,
               AlphaG2 open_key - ScalarMultiplicationG2 E (GenG2 open_key) (InputPoint prf)]
            = Inl err \<longrightarrow> Verify E commitment prf open_key = Some err)
       \<and> ((\<exists>check. PairingCheck E
              [commitment - ScalarMultiplicationG1 E (GenG1 open_key) (ClaimedValue prf),
               - QuotientComm prf]
              [GenG2 open_key,
               AlphaG2 open_key - ScalarMultiplicationG2 E (GenG2 open_key) (InputPoint prf)]
            = Inr check) \<longrightarrow>
          (Verify E commitment prf open_key = None \<longleftrightarrow>
             e (commitment - ScalarMultiplicationG1 E (GenG1 open_key) (ClaimedValue prf))
               (GenG2 open_key)
             * e (- QuotientComm prf)
                 (AlphaG2 open_key - ScalarMultiplicationG2 E (GenG2 open_key) (InputPoint prf))
             = 1)
          \<and> (e (commitment - ScalarMultiplicationG1 E (GenG1 open_key) (ClaimedValue prf))
               (GenG2 open_key)
             * e (- QuotientComm prf)
                 (AlphaG2 open_key - ScalarMultiplicationG2 E (GenG2 open_key) (InputPoint prf))
             \<noteq> 1 \<longrightarrow> Verify E commitment prf open_key = Some ErrVerifyOpeningProof))"
proof -
  let ?P = "[commitment - ScalarMultiplicationG1 E (GenG1 open_key) (ClaimedValue prf),
             - QuotientComm prf]"
  let ?Q = "[GenG2 open_key,
             AlphaG2 open_key - ScalarMultiplicationG2 E (GenG2 open_key) (InputPoint prf)]"
  have V: "Verify E commitment prf open_key =
      (case PairingCheck E ?P ?Q of Inl err \<Rightarrow> Some err
       | Inr check \<Rightarrow> if \<not> check then Some ErrVerifyOpeningProof else None)"
    by (simp add: Verify_def Let_def)
  show ?thesis
  proof (cases "PairingCheck E ?P ?Q")
    case (Inl err)
    then show ?thesis using V by simp
  next
    case (Inr check)
    with assms have "check = (prod_list (map2 e ?P ?Q) = 1)"
      unfolding PairingCheck_computes_def by blast
    then show ?thesis using V Inr by simp
  qed
qed

text \<open>
  In the toy instance the opening of \<open>X\<^sup>2 + 1\<close> at 2 verifies, and the same proof
  with the claimed value 6 does not.
\<close>

theorem Verify_pairing_equation_witness:
  "PairingCheck_computes toy_curve toy_pairing
   \<and> Verify toy_curve 26 \<lparr>QuotientComm = 7, InputPoint = 2, ClaimedValue = 5\<rparr> toy_key = None
   \<and> Verify toy_curve 26 \<lparr>QuotientComm = 7, InputPoint = 2, ClaimedValue = 6\<rparr> toy_key
       = Some ErrVerifyOpeningProof"
  using Verify_pairing_equation [OF toy_PairingCheck_computes,
          of 26 toy_key "\<lparr>QuotientComm = 7, InputPoint = 2, ClaimedValue = 5\<rparr>"]
        Verify_pairing_equation [OF toy_PairingCheck_computes,
          of 26 toy_key "\<lparr>QuotientComm = 7, InputPoint = 2, ClaimedValue = 6\<rparr>"]
        toy_PairingCheck_computes
  by (auto simp add: toy_curve_def toy_key_def toy_pairing_def)

section \<open>The loops of batched verification\<close>

lemma sample_loop_success:
  "\<forall>i\<in>set idxs. SetRandom i = Inr (g i) \<Longrightarrow>
   sample_loop SetRandom idxs xs = Inr (fold (\<lambda>i ys. ys[i := g i]) idxs xs)"
  by (induction idxs arbitrary: xs) simp_all

lemma sample_loop_failure:
  "\<forall>i\<in>set pre. SetRandom i = Inr (g i) \<Longrightarrow> SetRandom k = Inl err \<Longrightarrow>
   sample_loop SetRandom (pre @ k # post) xs = Inl err"
  by (induction pre arbitrary: xs) simp_all

lemma length_fold_update: "length (fold (\<lambda>i ys. ys[i := g i]) idxs xs) = length xs"
  by (induction idxs arbitrary: xs) simp_all

lemma nth_fold_update:
  "j < length xs \<Longrightarrow>
   fold (\<lambda>i ys. ys[i := g i]) idxs xs ! j = (if j \<in> set idxs then g j else xs ! j)"
  by (induction idxs arbitrary: xs) (auto simp: nth_list_update)

lemma sample_loop_all:
  assumes len: "length r = n" and pos: "0 < n" and one: "r ! 0 = 1"
    and rnd: "\<forall>i. 1 \<le> i \<and> i < n \<longrightarrow> SetRandom i = Inr (r ! i)"
  shows "sample_loop SetRandom [1..<n] ((replicate n 0)[0 := 1]) = Inr r"
proof -
  let ?xs = "(replicate n (0::'a))[0 := 1]"
  let ?ys = "fold (\<lambda>i ys. ys[i := r ! i]) [1..<n] ?xs"
  have "sample_loop SetRandom [1..<n] ?xs = Inr ?ys"
    using rnd by (intro sample_loop_success) simp
  moreover have "?ys = r"
  proof (rule nth_equalityI)
    show "length ?ys = length r" by (simp add: length_fold_update len)
  next
    fix j assume "j < length ?ys"
    then have j: "j < n" by (simp add: length_fold_update)
    then have "?ys ! j = (if j \<in> set [1..<n] then r ! j else ?xs ! j)"
      by (intro nth_fold_update) simp
    then show "?ys ! j = r ! j" using j one by (cases "j = 0") auto
  qed
  ultimately show ?thesis by simp
qed

lemma fold_evaluations_sum_list:
  "\<forall>i\<in>set idxs. i < length evaluations \<and> i < length factors \<Longrightarrow>
   fold_evaluations evaluations factors idxs acc
     = Returns (acc + sum_list (map (\<lambda>i. evaluations ! i * factors ! i) idxs))"
  by (induction idxs arbitrary: acc) (simp_all add: add.assoc)

lemma fold_evaluations_sum:
  assumes "n \<le> length evaluations" and "n \<le> length factors"
  shows "fold_evaluations evaluations factors [0..<n] 0
           = Returns (\<Sum>i<n. evaluations ! i * factors ! i)"
proof -
  have "fold_evaluations evaluations factors [0..<n] 0
          = Returns (0 + sum_list (map (\<lambda>i. evaluations ! i * factors ! i) [0..<n]))"
    using assms by (intro fold_evaluations_sum_list) simp
  then show ?thesis
    by (simp add: interv_sum_list_conv_sum_set_nat atLeast0LessThan)
qed

lemma fold_kzg_computes:
  assumes msm: "MultiExp_computes E"
    and l1: "length evaluations = length digests" and l2: "length factors = length digests"
  shows "fold_kzg E digests evaluations factors
           = Returns (\<Sum>i<length digests. ScalarMultiplicationG1 E (digests ! i) (factors ! i),
                      \<Sum>i<length digests. evaluations ! i * factors ! i, None)"
proof -
  have "MultiExp E digests factors
          = Inr (\<Sum>i<length digests. ScalarMultiplicationG1 E (digests ! i) (factors ! i))"
    using msm l2 unfolding MultiExp_computes_def by simp
  moreover have "fold_evaluations evaluations factors [0..<length digests] 0
          = Returns (\<Sum>i<length digests. evaluations ! i * factors ! i)"
    using l1 l2 by (intro fold_evaluations_sum) simp_all
  ultimately show ?thesis by (simp add: fold_kzg_def)
qed

section \<open>Properties of batched verification\<close>

text \<open>
  C8: when the numbers of commitments and of proofs differ, \<open>BatchVerifyMultiPoints\<close>
  returns \<open>ErrInvalidNbDigests\<close>, whatever the lists hold and whatever the engine and the
  random source would do: the check comes before any other step.
\<close>

theorem BatchVerifyMultiPoints_count_mismatch:
  "length commitments \<noteq> length proofs \<Longrightarrow>
   BatchVerifyMultiPoints E SetRandom commitments proofs open_key
     = Returns (Some ErrInvalidNbDigests)"
  by (simp add: BatchVerifyMultiPoints_def)

theorem BatchVerifyMultiPoints_count_mismatch_witness:
  "length [3::int, 4] \<noteq> length [\<lparr>QuotientComm = 7::int, InputPoint = 2::int, ClaimedValue = 5\<rparr>]
   \<and> BatchVerifyMultiPoints failing_msm_curve (\<lambda>i. Inl (EngineError ''rand''))
       [3, 4] [\<lparr>QuotientComm = 7, InputPoint = 2, ClaimedValue = 5\<rparr>] toy_key
     = Returns (Some ErrInvalidNbDigests)"
  using BatchVerifyMultiPoints_count_mismatch
    [of "[3::int, 4]" "[\<lparr>QuotientComm = 7::int, InputPoint = 2::int, ClaimedValue = 5\<rparr>]"
        failing_msm_curve "\<lambda>i. Inl (EngineError ''rand'')" toy_key]
  by simp

text \<open>
  C4: with exactly one commitment and one proof, \<open>BatchVerifyMultiPoints\<close> returns what
  \<open>Verify\<close> returns on that pair.
\<close>

theorem BatchVerifyMultiPoints_single:
  "BatchVerifyMultiPoints E SetRandom [commitment] [prf] open_key
     = Returns (Verify E commitment prf open_key)"
  by (simp add: BatchVerifyMultiPoints_def)

text \<open>
  C9: with no commitment and no proof, \<open>BatchVerifyMultiPoints\<close> passes both length
  checks, allocates a slice of length zero and panics on \<^verbatim>\<open>randomNumbers[0]\<close>.
\<close>

theorem BatchVerifyMultiPoints_empty_panics:
  "BatchVerifyMultiPoints E SetRandom [] [] open_key = Panics"
  by (simp add: BatchVerifyMultiPoints_def set_index_def)

text \<open>
  C1: an error of the multi-scalar multiplication that folds the quotient commitments is
  not handed to the caller. With the two toy openings, the sampled scalar 3 and an
  engine whose \<open>MultiExp\<close> fails, the call returns \<^verbatim>\<open>nil\<close>: the branch of the source is
  \<^verbatim>\<open>if err != nil { return nil }\<close>, where every other error branch of the function
  returns \<^verbatim>\<open>err\<close>.
\<close>

theorem BatchVerifyMultiPoints_masks_MultiExp_error:
  "MultiExp failing_msm_curve (map QuotientComm toy_proofs) [1, 3] = Inl (EngineError ''msm'')
   \<and> BatchVerifyMultiPoints failing_msm_curve toy_random toy_commitments toy_proofs toy_key
       = Returns None"
  by (simp add: BatchVerifyMultiPoints_def set_index_def failing_msm_curve_def toy_curve_def
      toy_random_def toy_commitments_def toy_proofs_def)

text \<open>
  The same holds for every input with at least two pairs: once the scalars are
  sampled, an error of the first multi-scalar multiplication ends the call with
  \<^verbatim>\<open>nil\<close>.
\<close>

lemma BatchVerifyMultiPoints_first_MultiExp_error:
  fixes r :: "'f::comm_ring_1 list"
  assumes len: "length commitments = length proofs" and n2: "2 \<le> length proofs"
    and rlen: "length r = length proofs" and r0: "r ! 0 = 1"
    and rnd: "\<forall>i. 1 \<le> i \<and> i < length proofs \<longrightarrow> SetRandom i = Inr (r ! i)"
    and err: "MultiExp E (map QuotientComm proofs) r = Inl err"
  shows "BatchVerifyMultiPoints E SetRandom commitments proofs open_key = Returns None"
proof -
  let ?n = "length proofs"
  have idx: "set_index (replicate (length commitments) (0::'f)) 0 1
               = Returns ((replicate ?n 0)[0 := 1])"
    using n2 len by (auto simp add: set_index_def)
  have smp: "sample_loop SetRandom [1..<?n] ((replicate ?n 0)[0 := 1]) = Inr r"
    using rlen n2 r0 rnd by (intro sample_loop_all) auto
  show ?thesis
    using n2 len idx smp err by (simp add: BatchVerifyMultiPoints_def)
qed

text \<open>
  An error of the random source ends the call with that error.
\<close>

lemma BatchVerifyMultiPoints_sampling_error:
  fixes SetRandom :: "nat \<Rightarrow> error + 'f::comm_ring_1"
  assumes len: "length commitments = length proofs" and n2: "2 \<le> length proofs"
    and k: "1 \<le> k" "k < length proofs"
    and before: "\<forall>i. 1 \<le> i \<and> i < k \<longrightarrow> SetRandom i = Inr (g i)"
    and err: "SetRandom k = Inl err"
  shows "BatchVerifyMultiPoints E SetRandom commitments proofs open_key = Returns (Some err)"
proof -
  let ?n = "length proofs"
  have idx: "set_index (replicate (length commitments) (0::'f)) 0 1
               = Returns ((replicate ?n 0)[0 := 1])"
    using n2 len by (auto simp add: set_index_def)
  have "[1..<?n] = [1..<k] @ [k..<?n]"
    using k by (metis less_imp_le_nat upt_add_eq_append le_add_diff_inverse)
  then have split: "[1..<?n] = [1..<k] @ k # [Suc k..<?n]"
    using k by (simp add: upt_rec [of k])
  have "sample_loop SetRandom ([1..<k] @ k # [Suc k..<?n]) ((replicate ?n 0)[0 := 1]) = Inl err"
    using before err by (intro sample_loop_failure [where g = g]) simp_all
  then have smp: "sample_loop SetRandom [1..<?n] ((replicate ?n 0)[0 := 1]) = Inl err"
    using split by simp
  show ?thesis
    using n2 len idx smp by (simp add: BatchVerifyMultiPoints_def)
qed

text \<open>
  C2, amended: for a call with at least two pairs in which the random source hands
  back the scalars \<open>r[1..n)\<close>, the multi-scalar multiplications hand back the sums of
  the scalar multiples and the pairing check hands back a boolean, the scalars used
  are \<open>r[0] = 1\<close> and \<open>r[1..n)\<close>, and the call returns \<^verbatim>\<open>nil\<close> iff
  \<open>e(F, GenG2) e(- foldedQuotient, AlphaG2) = 1\<close>, and \<open>ErrVerifyOpeningProof\<close>
  otherwise.
\<close>

theorem BatchVerifyMultiPoints_pairing_equation:
  fixes e :: "'g1::ab_group_add \<Rightarrow> 'g2::ab_group_add \<Rightarrow> 'gt::monoid_mult"
    and r :: "'f::comm_ring_1 list"
  assumes len: "length commitments = length proofs" and n2: "2 \<le> length proofs"
    and rlen: "length r = length proofs" and r0: "r ! 0 = 1"
    and rnd: "\<forall>i. 1 \<le> i \<and> i < length proofs \<longrightarrow> SetRandom i = Inr (r ! i)"
    and msm: "MultiExp_computes E"
    and pc: "PairingCheck_computes E e"
    and noerr: "PairingCheck E
                  [F_spec E r commitments proofs open_key, - folded_quotient_spec E r proofs]
                  [GenG2 open_key, AlphaG2 open_key] = Inr check"
  shows "BatchVerifyMultiPoints E SetRandom commitments proofs open_key
           = Returns (if e (F_spec E r commitments proofs open_key) (GenG2 open_key)
                          * e (- folded_quotient_spec E r proofs) (AlphaG2 open_key) = 1
                      then None else Some ErrVerifyOpeningProof)"
proof -
  let ?n = "length proofs"
  let ?quotients = "map QuotientComm proofs"
  let ?r2 = "map2 (\<lambda>r p. r * InputPoint p) r proofs"
  have idx: "set_index (replicate (length commitments) (0::'f)) 0 1
               = Returns ((replicate ?n 0)[0 := 1])"
    using n2 len by (auto simp add: set_index_def)
  have smp: "sample_loop SetRandom [1..<?n] ((replicate ?n 0)[0 := 1]) = Inr r"
    using rlen n2 r0 rnd by (intro sample_loop_all) auto
  have fq: "MultiExp E ?quotients r = Inr (folded_quotient_spec E r proofs)"
    using msm rlen unfolding MultiExp_computes_def folded_quotient_spec_def by simp
  have fld: "fold_kzg E commitments (map ClaimedValue proofs) r
               = Returns (\<Sum>i<?n. ScalarMultiplicationG1 E (commitments ! i) (r ! i),
                          \<Sum>i<?n. r ! i * ClaimedValue (proofs ! i), None)"
    using fold_kzg_computes [OF msm, of "map ClaimedValue proofs" commitments r] len rlen
    by (simp add: mult.commute)
  have fpq: "MultiExp E ?quotients ?r2
               = Inr (\<Sum>i<?n. ScalarMultiplicationG1 E (QuotientComm (proofs ! i))
                                 (r ! i * InputPoint (proofs ! i)))"
    using msm rlen unfolding MultiExp_computes_def by simp
  have chk: "check = (e (F_spec E r commitments proofs open_key) (GenG2 open_key)
                        * e (- folded_quotient_spec E r proofs) (AlphaG2 open_key) = 1)"
    using pc noerr unfolding PairingCheck_computes_def by fastforce
  have "BatchVerifyMultiPoints E SetRandom commitments proofs open_key
          = Returns (if \<not> check then Some ErrVerifyOpeningProof else None)"
    using n2 len idx smp fq fld fpq noerr
    by (simp add: BatchVerifyMultiPoints_def F_spec_def)
  then show ?thesis using chk by simp
qed

text \<open>
  The two toy openings with the sampled scalar 3: \<open>F = 65\<close>, the folded quotient is
  13 and the batch verifies.
\<close>

theorem BatchVerifyMultiPoints_pairing_equation_witness:
  "MultiExp_computes toy_curve \<and> PairingCheck_computes toy_curve toy_pairing
   \<and> BatchVerifyMultiPoints toy_curve toy_random toy_commitments toy_proofs toy_key
       = Returns None"
proof -
  have len: "length toy_commitments = length toy_proofs"
    by (simp add: toy_commitments_def toy_proofs_def)
  have n2: "2 \<le> length toy_proofs" by (simp add: toy_proofs_def)
  have rlen: "length [1, 3::int] = length toy_proofs" by (simp add: toy_proofs_def)
  have r0: "[1, 3::int] ! 0 = 1" by simp
  have rnd: "\<forall>i. 1 \<le> i \<and> i < length toy_proofs \<longrightarrow> toy_random i = Inr ([1, 3] ! i)"
    by (auto simp add: toy_proofs_def toy_random_def less_Suc_eq)
  have F: "F_spec toy_curve [1, 3] toy_commitments toy_proofs toy_key = 65"
    by (simp add: F_spec_def toy_curve_def toy_commitments_def toy_proofs_def toy_key_def
        lessThan_Suc)
  have fq: "folded_quotient_spec toy_curve [1, 3] toy_proofs = 13"
    by (simp add: folded_quotient_spec_def toy_curve_def toy_proofs_def lessThan_Suc)
  have noerr: "PairingCheck toy_curve
                 [F_spec toy_curve [1, 3] toy_commitments toy_proofs toy_key,
                  - folded_quotient_spec toy_curve [1, 3] toy_proofs]
                 [GenG2 toy_key, AlphaG2 toy_key] = Inr True"
    unfolding F fq by (simp add: toy_curve_def toy_key_def toy_pairing_def)
  have "toy_pairing 65 (GenG2 toy_key) * toy_pairing (- 13) (AlphaG2 toy_key) = 1"
    by (simp add: toy_key_def toy_pairing_def)
  then show ?thesis
    using BatchVerifyMultiPoints_pairing_equation
            [OF len n2 rlen r0 rnd toy_MultiExp_computes toy_PairingCheck_computes noerr]
          toy_MultiExp_computes toy_PairingCheck_computes
    unfolding F fq by simp
qed

text \<open>
  C2 as stated leaves two outcomes, success and \<open>ErrVerifyOpeningProof\<close>. With a
  random source that fails, the call returns the error of the source, which is
  neither.
\<close>

theorem BatchVerifyMultiPoints_pairing_equation_counterexample:
  "BatchVerifyMultiPoints toy_curve failing_random toy_commitments toy_proofs toy_key
     = Returns (Some (EngineError ''rand''))
   \<and> BatchVerifyMultiPoints toy_curve failing_random toy_commitments toy_proofs toy_key
       \<noteq> Returns None
   \<and> BatchVerifyMultiPoints toy_curve failing_random toy_commitments toy_proofs toy_key
       \<noteq> Returns (Some ErrVerifyOpeningProof)"
  by (simp add: BatchVerifyMultiPoints_def set_index_def failing_random_def
      toy_commitments_def toy_proofs_def)

section \<open>The loops of the quotient polynomial\<close>

lemma denom_loop_fold:
  "\<forall>i\<in>set idxs. i < length roots \<Longrightarrow>
   denom_loop roots a idxs denom = Returns (fold (\<lambda>i ys. ys[i := roots ! i - a]) idxs denom)"
  by (induction idxs arbitrary: denom) simp_all

lemma denom_loop_panics:
  "\<exists>i\<in>set idxs. \<not> i < length roots \<Longrightarrow> denom_loop roots a idxs denom = Panics"
  by (induction idxs arbitrary: denom) auto

lemma denom_loop_all:
  assumes "n \<le> length roots"
  shows "denom_loop roots a [0..<n] (replicate n 0) = Returns (map (\<lambda>r. r - a) (take n roots))"
proof -
  let ?ys = "fold (\<lambda>i ys. ys[i := roots ! i - a]) [0..<n] (replicate n 0)"
  have "denom_loop roots a [0..<n] (replicate n 0) = Returns ?ys"
    using assms by (intro denom_loop_fold) simp
  moreover have "?ys = map (\<lambda>r. r - a) (take n roots)"
  proof (rule nth_equalityI)
    show "length ?ys = length (map (\<lambda>r. r - a) (take n roots))"
      using assms by (simp add: length_fold_update)
  next
    fix j assume "j < length ?ys"
    then have j: "j < n" by (simp add: length_fold_update)
    then have "?ys ! j = (if j \<in> set [0..<n] then roots ! j - a else replicate n 0 ! j)"
      by (intro nth_fold_update) simp
    then show "?ys ! j = map (\<lambda>r. r - a) (take n roots) ! j"
      using j assms by simp
  qed
  ultimately show ?thesis by simp
qed

lemma quotient_loop_prefix:
  "k \<le> n \<Longrightarrow> n \<le> length denom \<Longrightarrow>
   quotient_loop numer [k..<n] denom
     = Returns (take k denom @ map (\<lambda>i. denom ! i * numer ! i) [k..<n] @ drop n denom)"
proof (induction "n - k" arbitrary: k denom)
  case 0
  then show ?case by simp
next
  case (Suc d)
  then have k: "k < n" by simp
  then have upt: "[k..<n] = k # [Suc k..<n]" by (simp add: upt_rec)
  have step: "quotient_loop numer [k..<n] denom
        = quotient_loop numer [Suc k..<n] (denom[k := denom ! k * numer ! k])"
    using k Suc.prems by (simp add: upt)
  have IH: "quotient_loop numer [Suc k..<n] (denom[k := denom ! k * numer ! k])
        = Returns (take (Suc k) (denom[k := denom ! k * numer ! k])
                   @ map (\<lambda>i. (denom[k := denom ! k * numer ! k]) ! i * numer ! i) [Suc k..<n]
                   @ drop n (denom[k := denom ! k * numer ! k]))"
    using Suc.hyps(2) k Suc.prems by (intro Suc.hyps(1)) simp_all
  have t: "take (Suc k) (denom[k := denom ! k * numer ! k]) = take k denom @ [denom ! k * numer ! k]"
    using k Suc.prems by (simp add: take_Suc_conv_app_nth)
  have m: "map (\<lambda>i. (denom[k := denom ! k * numer ! k]) ! i * numer ! i) [Suc k..<n]
           = map (\<lambda>i. denom ! i * numer ! i) [Suc k..<n]"
    by (rule map_cong) auto
  have d: "drop n (denom[k := denom ! k * numer ! k]) = drop n denom"
    using k by simp
  show ?case unfolding step IH t m d by (simp add: upt)
qed

lemma quotient_loop_all:
  assumes "length denom = n"
  shows "quotient_loop numer [0..<n] denom = Returns (map (\<lambda>i. denom ! i * numer ! i) [0..<n])"
  using quotient_loop_prefix [of 0 n denom numer] assms by simp

lemma quotient_loop_panics:
  "k < n \<Longrightarrow> k \<le> length denom \<Longrightarrow> length denom < n \<Longrightarrow> quotient_loop numer [k..<n] denom = Panics"
proof (induction "length denom - k" arbitrary: k denom)
  case 0
  then show ?case by (simp add: upt_rec)
next
  case (Suc d)
  then show ?case by (simp add: upt_rec [of k n])
qed

lemma DividePolyByXminusA_shape:
  assumes inv: "length (Roots domain) = Cardinality domain"
    and bl: "\<forall>xs. length (BatchInvert xs) = length xs"
  shows "(\<exists>err. DividePolyByXminusA BatchInvert domain f fa a = Returns (None, Some err))
       \<or> (\<exists>q. DividePolyByXminusA BatchInvert domain f fa a = Returns (Some q, None))"
proof (cases "Cardinality domain \<noteq> length f \<or> isInDomain domain a")
  case True
  then show ?thesis by (auto simp add: DividePolyByXminusA_def)
next
  case False
  let ?n = "length f"
  let ?denom = "map (\<lambda>r. r - a) (take ?n (Roots domain))"
  have dl: "denom_loop (Roots domain) a [0..<?n] (replicate ?n 0) = Returns ?denom"
    using False inv by (intro denom_loop_all) simp
  have "length (BatchInvert ?denom) = ?n" using bl False inv by simp
  then have "quotient_loop (map (\<lambda>x. x - fa) f) [0..<?n] (BatchInvert ?denom)
      = Returns (map (\<lambda>i. BatchInvert ?denom ! i * map (\<lambda>x. x - fa) f ! i) [0..<?n])"
    by (rule quotient_loop_all)
  then show ?thesis using False dl by (simp add: DividePolyByXminusA_def)
qed

section \<open>Properties of the quotient polynomial\<close>

text \<open>
  C5: for a domain whose \<^verbatim>\<open>Roots\<close> has \<^verbatim>\<open>Cardinality\<close> elements, a polynomial \<open>f\<close> of
  that length and a point \<open>a\<close> that is not a root, \<open>DividePolyByXminusA\<close> returns
  without error the polynomial whose \<open>i\<close>-th value is
  \<open>(f[i] - fa) (Roots[i] - a)\<^sup>-\<^sup>1\<close>, given that batch inversion inverts each
  nonzero scalar.
\<close>

theorem DividePolyByXminusA_quotient:
  fixes f :: "'f::field list"
  assumes size: "length f = Cardinality domain"
    and inv: "length (Roots domain) = Cardinality domain"
    and notin: "a \<notin> set (Roots domain)"
    and bi: "BatchInvert_inverts BatchInvert"
  shows "\<exists>q. DividePolyByXminusA BatchInvert domain f fa a = Returns (Some q, None)
           \<and> length q = length f
           \<and> (\<forall>i<length f. q ! i = (f ! i - fa) * inverse (Roots domain ! i - a))"
proof -
  let ?n = "length f"
  let ?denom = "map (\<lambda>r. r - a) (Roots domain)"
  let ?q = "map (\<lambda>i. map inverse ?denom ! i * map (\<lambda>x. x - fa) f ! i) [0..<?n]"
  have dl: "denom_loop (Roots domain) a [0..<?n] (replicate ?n 0) = Returns ?denom"
    using denom_loop_all [of ?n "Roots domain" a] size inv by simp
  have "0 \<notin> set ?denom" using notin by auto
  then have binv: "BatchInvert ?denom = map inverse ?denom"
    using bi unfolding BatchInvert_inverts_def by blast
  have ql: "quotient_loop (map (\<lambda>x. x - fa) f) [0..<?n] (map inverse ?denom) = Returns ?q"
    using size inv by (intro quotient_loop_all) simp
  have "DividePolyByXminusA BatchInvert domain f fa a = Returns (Some ?q, None)"
    using size notin dl binv ql by (simp add: DividePolyByXminusA_def isInDomain_def)
  moreover have "length ?q = ?n" by simp
  moreover have "\<forall>i<?n. ?q ! i = (f ! i - fa) * inverse (Roots domain ! i - a)"
    using size inv by (simp add: mult.commute)
  ultimately show ?thesis by blast
qed

text \<open>
  The polynomial \<open>5 - 2 X\<close>, with values 3 and 7 on the toy domain, divided at the
  point 2 where its value is 1: the quotient is the constant \<open>- 2\<close>.
\<close>

theorem DividePolyByXminusA_quotient_witness:
  "length [3, 7::rat] = Cardinality toy_domain
   \<and> length (Roots toy_domain) = Cardinality toy_domain
   \<and> 2 \<notin> set (Roots toy_domain)
   \<and> DividePolyByXminusA (map inverse) toy_domain [3, 7] 1 2 = Returns (Some [- 2, - 2], None)"
proof -
  have size: "length [3, 7::rat] = Cardinality toy_domain" by (simp add: toy_domain_def)
  have inv: "length (Roots toy_domain) = Cardinality toy_domain" by (simp add: toy_domain_def)
  have notin: "2 \<notin> set (Roots toy_domain)" by (simp add: toy_domain_def)
  obtain q where q: "DividePolyByXminusA (map inverse) toy_domain [3, 7] 1 2
                       = Returns (Some q, None)"
      and lq: "length q = length [3, 7::rat]"
      and nq: "\<forall>i<length [3, 7::rat]. q ! i = ([3, 7] ! i - 1) * inverse (Roots toy_domain ! i - 2)"
    using DividePolyByXminusA_quotient [OF size inv notin BatchInvert_inverts_map_inverse, of 1]
    by blast
  have "q ! 0 = - 2" using nq by (simp add: toy_domain_def)
  moreover have "q ! 1 = - 2" using nq by (simp add: toy_domain_def)
  ultimately have "q = [- 2, - 2]" using lq
    by (intro nth_equalityI) (auto simp add: less_Suc_eq)
  then show ?thesis using q size inv notin by simp
qed

text \<open>
  C6: \<open>DividePolyByXminusA\<close> returns no polynomial and the size error when the length
  of \<open>f\<close> is not the cardinality of the domain, and no polynomial and the error of a
  point in the domain when the size is right and \<open>a\<close> is one of the roots.
\<close>

theorem DividePolyByXminusA_errors:
  "(Cardinality domain \<noteq> length f \<longrightarrow>
      DividePolyByXminusA BatchInvert domain f fa a
        = Returns (None, Some (ErrorsNew ''polynomial size does not match domain size'')))
   \<and> (Cardinality domain = length f \<and> (\<exists>i<length (Roots domain). a = Roots domain ! i) \<longrightarrow>
      DividePolyByXminusA BatchInvert domain f fa a
        = Returns (None, Some (ErrorsNew ''cannot divide by point in the domain'')))"
  by (auto simp add: DividePolyByXminusA_def isInDomain_def)

theorem DividePolyByXminusA_errors_witness:
  "DividePolyByXminusA (map inverse) toy_domain [3, 7, 9] 1 2
     = Returns (None, Some (ErrorsNew ''polynomial size does not match domain size''))
   \<and> DividePolyByXminusA (map inverse) toy_domain [3, 7] 7 (- 1)
     = Returns (None, Some (ErrorsNew ''cannot divide by point in the domain''))"
proof -
  have "Cardinality toy_domain \<noteq> length [3, 7, 9::rat]" by (simp add: toy_domain_def)
  moreover have "Cardinality toy_domain = length [3, 7::rat]
      \<and> (\<exists>i<length (Roots toy_domain). (- 1) = Roots toy_domain ! i)"
    by (auto simp add: toy_domain_def intro: exI [of _ 1])
  ultimately show ?thesis
    using DividePolyByXminusA_errors [of toy_domain "[3, 7, 9]" "map inverse" 1 2]
          DividePolyByXminusA_errors [of toy_domain "[3, 7]" "map inverse" 7 "- 1"]
    by blast
qed

section \<open>Properties of opening\<close>

text \<open>
  C7: \<open>Open\<close> returns the empty proof and \<open>ErrInvalidPolynomialSize\<close> when \<open>p\<close> is
  empty or longer than the commit key. Otherwise it returns either the empty proof
  with the error of the evaluation, of the division or of the commitment, or the proof
  made of the commitment to the quotient, the point and the claimed value. The domain
  has as many roots as its cardinality and batch inversion keeps the length of its
  argument.
\<close>

theorem Open_result:
  assumes inv: "length (Roots domain) = Cardinality domain"
    and bl: "\<forall>xs. length (BatchInvert xs) = length xs"
  shows "(length p = 0 \<or> length (G1 ck) < length p \<longrightarrow>
            Open BatchInvert EvaluateLagrangePolynomial Commit domain p point ck
              = Returns (empty_OpeningProof, Some ErrInvalidPolynomialSize))
       \<and> (\<not> (length p = 0 \<or> length (G1 ck) < length p) \<longrightarrow>
            (\<exists>err. Open BatchInvert EvaluateLagrangePolynomial Commit domain p point ck
                     = Returns (empty_OpeningProof, Some err)
                \<and> (EvaluateLagrangePolynomial domain p point = Inl err
                   \<or> (\<exists>claimed. EvaluateLagrangePolynomial domain p point = Inr claimed
                        \<and> DividePolyByXminusA BatchInvert domain p claimed point
                            = Returns (None, Some err))
                   \<or> (\<exists>claimed q. EvaluateLagrangePolynomial domain p point = Inr claimed
                        \<and> DividePolyByXminusA BatchInvert domain p claimed point
                            = Returns (Some q, None)
                        \<and> Commit q ck = Inl err)))
          \<or> (\<exists>claimed q quotientComm.
                EvaluateLagrangePolynomial domain p point = Inr claimed
              \<and> DividePolyByXminusA BatchInvert domain p claimed point = Returns (Some q, None)
              \<and> Commit q ck = Inr quotientComm
              \<and> Open BatchInvert EvaluateLagrangePolynomial Commit domain p point ck
                  = Returns (\<lparr> QuotientComm = quotientComm, InputPoint = point,
                               ClaimedValue = claimed \<rparr>, None)))"
proof (intro conjI impI)
  assume "length p = 0 \<or> length (G1 ck) < length p"
  then show "Open BatchInvert EvaluateLagrangePolynomial Commit domain p point ck
               = Returns (empty_OpeningProof, Some ErrInvalidPolynomialSize)"
    by (auto simp add: Open_def)
next
  assume ok: "\<not> (length p = 0 \<or> length (G1 ck) < length p)"
  show "(\<exists>err. Open BatchInvert EvaluateLagrangePolynomial Commit domain p point ck
                     = Returns (empty_OpeningProof, Some err)
                \<and> (EvaluateLagrangePolynomial domain p point = Inl err
                   \<or> (\<exists>claimed. EvaluateLagrangePolynomial domain p point = Inr claimed
                        \<and> DividePolyByXminusA BatchInvert domain p claimed point
                            = Returns (None, Some err))
                   \<or> (\<exists>claimed q. EvaluateLagrangePolynomial domain p point = Inr claimed
                        \<and> DividePolyByXminusA BatchInvert domain p claimed point
                            = Returns (Some q, None)
                        \<and> Commit q ck = Inl err)))
          \<or> (\<exists>claimed q quotientComm.
                EvaluateLagrangePolynomial domain p point = Inr claimed
              \<and> DividePolyByXminusA BatchInvert domain p claimed point = Returns (Some q, None)
              \<and> Commit q ck = Inr quotientComm
              \<and> Open BatchInvert EvaluateLagrangePolynomial Commit domain p point ck
                  = Returns (\<lparr> QuotientComm = quotientComm, InputPoint = point,
                               ClaimedValue = claimed \<rparr>, None))"
  proof (cases "EvaluateLagrangePolynomial domain p point")
    case (Inl err)
    then show ?thesis using ok by (simp add: Open_def)
  next
    case (Inr claimed)
    from DividePolyByXminusA_shape [OF inv bl, of p claimed point]
    show ?thesis
    proof (elim disjE exE)
      fix err
      assume "DividePolyByXminusA BatchInvert domain p claimed point = Returns (None, Some err)"
      then show ?thesis using ok Inr by (simp add: Open_def)
    next
      fix q
      assume d: "DividePolyByXminusA BatchInvert domain p claimed point = Returns (Some q, None)"
      show ?thesis
      proof (cases "Commit q ck")
        case (Inl err)
        then show ?thesis using ok Inr d by (simp add: Open_def slice_of_def)
      next
        case (Inr quotientComm)
        then show ?thesis using ok \<open>EvaluateLagrangePolynomial domain p point = Inr claimed\<close> d
          by (simp add: Open_def slice_of_def)
      qed
    qed
  qed
qed

theorem Open_result_witness:
  "length (Roots toy_domain) = Cardinality toy_domain
   \<and> Open (map inverse) toy_EvaluateLagrangePolynomial toy_Commit toy_domain [3, 7] 2
       toy_commit_key
     = Returns (\<lparr> QuotientComm = - 2, InputPoint = 2, ClaimedValue = 1 \<rparr>, None)
   \<and> Open (map inverse) toy_EvaluateLagrangePolynomial toy_Commit toy_domain [] 2
       toy_commit_key
     = Returns (empty_OpeningProof, Some ErrInvalidPolynomialSize)"
proof -
  have inv: "length (Roots toy_domain) = Cardinality toy_domain" by (simp add: toy_domain_def)
  have bl: "\<forall>xs::rat list. length (map inverse xs) = length xs" by simp
  note R = Open_result [OF inv bl, of _ toy_commit_key toy_EvaluateLagrangePolynomial toy_Commit 2]
  have ev: "toy_EvaluateLagrangePolynomial toy_domain [3, 7] 2 = Inr 1"
    by (simp add: toy_EvaluateLagrangePolynomial_def toy_domain_def lessThan_Suc)
  have dv: "DividePolyByXminusA (map inverse) toy_domain [3, 7] 1 2
              = Returns (Some [- 2, - 2], None)"
    by (simp add: DividePolyByXminusA_def isInDomain_def toy_domain_def upt_rec)
  have cm: "toy_Commit [- 2, - 2] toy_commit_key = Inr (- 2)"
    by (simp add: toy_Commit_def toy_commit_key_def lessThan_Suc)
  have ok: "\<not> (length [3, 7::rat] = 0 \<or> length (G1 toy_commit_key) < length [3, 7::rat])"
    by (simp add: toy_commit_key_def)
  have "Open (map inverse) toy_EvaluateLagrangePolynomial toy_Commit toy_domain [3, 7] 2
          toy_commit_key
        = Returns (\<lparr> QuotientComm = - 2, InputPoint = 2, ClaimedValue = 1 \<rparr>, None)"
    using R [of "[3, 7]"] ok ev dv cm by auto
  moreover have "Open (map inverse) toy_EvaluateLagrangePolynomial toy_Commit toy_domain [] 2
          toy_commit_key
        = Returns (empty_OpeningProof, Some ErrInvalidPolynomialSize)"
    using R [of "[]"] by simp
  ultimately show ?thesis using inv by simp
qed

section \<open>The quotient polynomial leaves its arguments alone\<close>

lemma extends_refl: "extends s s"
  by (simp add: extends_def)

lemma extends_trans:
  assumes "extends s t" and "extends t u"
  shows "extends s u"
proof -
  have st: "length s \<le> length t" "take (length s) t = s"
    using assms(1) by (simp_all add: extends_def)
  have tu: "length t \<le> length u" "take (length t) u = t"
    using assms(2) by (simp_all add: extends_def)
  have "take (length s) (take (length t) u) = take (length s) u"
    using st(1) by (simp add: min_def)
  then have "take (length s) u = s" using st(2) tu(2) by simp
  then show ?thesis using st(1) tu(1) by (simp add: extends_def)
qed

lemma extends_append: "extends s (s @ xs)"
  by (simp add: extends_def)

lemma extends_update_fresh: "extends s t \<Longrightarrow> length s \<le> k \<Longrightarrow> extends s (t[k := v])"
  by (simp add: extends_def)

lemma extends_nth:
  assumes "extends s t" and "k < length s"
  shows "t ! k = s ! k"
proof -
  have "take (length s) t ! k = t ! k" using assms(2) by simp
  then show ?thesis using assms(1) by (simp add: extends_def)
qed

lemma numer_loop_st_extends:
  "extends s0 s \<Longrightarrow> length s0 \<le> numer \<Longrightarrow> extends s0 (numer_loop_st f fa numer idxs s)"
  by (induction idxs arbitrary: s) (simp_all add: extends_update_fresh)

lemma denom_loop_st_extends:
  "extends s0 s \<Longrightarrow> length s0 \<le> denom \<Longrightarrow> extends s0 (fst (denom_loop_st roots a denom idxs s))"
  by (induction idxs arbitrary: s) (simp_all add: extends_update_fresh)

lemma quotient_loop_st_extends:
  "extends s0 s \<Longrightarrow> length s0 \<le> denom \<Longrightarrow>
   extends s0 (fst (quotient_loop_st numer denom idxs s))"
  by (induction idxs arbitrary: s) (simp_all add: extends_update_fresh)

lemma numer_loop_st_length: "length (numer_loop_st f fa numer idxs s) = length s"
  by (induction idxs arbitrary: s) simp_all

lemma denom_loop_st_length: "length (fst (denom_loop_st roots a denom idxs s)) = length s"
  by (induction idxs arbitrary: s) simp_all

lemma quotient_loop_st_length: "length (fst (quotient_loop_st numer denom idxs s)) = length s"
  by (induction idxs arbitrary: s) simp_all

lemma DividePolyByXminusA_st_frame:
  "extends s (fst (DividePolyByXminusA_st BatchInvert s cardinality roots f fa a))
   \<and> (\<forall>q. snd (DividePolyByXminusA_st BatchInvert s cardinality roots f fa a)
            = Returns (Some q, None) \<longrightarrow>
          length s \<le> q
          \<and> q < length (fst (DividePolyByXminusA_st BatchInvert s cardinality roots f fa a)))"
proof (cases "cardinality \<noteq> length (s ! f)
              \<or> isInDomain \<lparr> Cardinality = cardinality, Roots = s ! roots \<rparr> a")
  case True
  then show ?thesis by (auto simp add: DividePolyByXminusA_st_def extends_refl)
next
  case False
  let ?n = "length (s ! f)"
  let ?s1 = "s @ [replicate ?n 0]"
  let ?numer = "length s"
  let ?s2 = "numer_loop_st f fa ?numer [0..<?n] ?s1"
  let ?s3 = "?s2 @ [replicate ?n 0]"
  let ?denom = "length ?s2"
  let ?dl = "denom_loop_st roots a ?denom [0..<?n] ?s3"
  let ?s4 = "fst ?dl"
  let ?s5 = "?s4 @ [BatchInvert (?s4 ! ?denom)]"
  let ?res = "length ?s4"
  let ?ql = "quotient_loop_st ?numer ?res [0..<?n] ?s5"
  have e2: "extends s ?s2"
    by (intro numer_loop_st_extends extends_append) simp
  have l2: "length ?s2 = Suc (length s)" by (simp add: numer_loop_st_length)
  have e3: "extends s ?s3" using e2 extends_append extends_trans by blast
  have e4: "extends s ?s4" using e3 l2 by (intro denom_loop_st_extends) simp_all
  have l4: "length ?s4 = Suc (Suc (length s))" by (simp add: denom_loop_st_length l2)
  have e5: "extends s ?s5" using e4 extends_append extends_trans by blast
  have e6: "extends s (fst ?ql)" using e5 l4 by (intro quotient_loop_st_extends) simp_all
  have l6: "length (fst ?ql) = Suc (Suc (Suc (length s)))"
    by (simp add: quotient_loop_st_length l4)
  have D: "DividePolyByXminusA_st BatchInvert s cardinality roots f fa a
      = (if snd ?dl then (if snd ?ql then (fst ?ql, Returns (Some ?res, None))
                          else (fst ?ql, Panics))
         else (?s4, Panics))"
    using False
    by (simp add: DividePolyByXminusA_st_def make_def Let_def split: prod.splits bool.splits)
  show ?thesis
    unfolding D using e4 e6 l4 l6 by simp
qed

text \<open>
  The function on the store computes what the function on values computes: the same
  error or panic, and on success the address of a new array that holds the quotient.
\<close>

lemma numer_loop_st_fold:
  "f \<noteq> numer \<Longrightarrow> numer < length s \<Longrightarrow>
   numer_loop_st f fa numer idxs s
     = s[numer := fold (\<lambda>i ys. ys[i := s ! f ! i - fa]) idxs (s ! numer)]"
  by (induction idxs arbitrary: s) simp_all

lemma numer_loop_st_all:
  assumes "f \<noteq> numer" and "numer < length s" and "s ! numer = replicate (length (s ! f)) 0"
  shows "numer_loop_st f fa numer [0..<length (s ! f)] s = s[numer := map (\<lambda>x. x - fa) (s ! f)]"
proof -
  let ?n = "length (s ! f)"
  let ?ys = "fold (\<lambda>i ys. ys[i := s ! f ! i - fa]) [0..<?n] (replicate ?n 0)"
  have "?ys = map (\<lambda>x. x - fa) (s ! f)"
  proof (rule nth_equalityI)
    show "length ?ys = length (map (\<lambda>x. x - fa) (s ! f))"
      by (simp add: length_fold_update)
  next
    fix j assume "j < length ?ys"
    then have j: "j < ?n" by (simp add: length_fold_update)
    then have "?ys ! j = (if j \<in> set [0..<?n] then s ! f ! j - fa else replicate ?n 0 ! j)"
      by (intro nth_fold_update) simp
    then show "?ys ! j = map (\<lambda>x. x - fa) (s ! f) ! j" using j by simp
  qed
  then show ?thesis using assms by (simp add: numer_loop_st_fold)
qed

lemma denom_loop_st_returns:
  "roots \<noteq> denom \<Longrightarrow> denom < length s \<Longrightarrow>
   denom_loop (s ! roots) a idxs (s ! denom) = Returns d \<Longrightarrow>
   denom_loop_st roots a denom idxs s = (s[denom := d], True)"
  by (induction idxs arbitrary: s) (auto split: if_splits)

lemma denom_loop_st_panics:
  "roots \<noteq> denom \<Longrightarrow> denom < length s \<Longrightarrow>
   denom_loop (s ! roots) a idxs (s ! denom) = Panics \<Longrightarrow>
   snd (denom_loop_st roots a denom idxs s) = False"
  by (induction idxs arbitrary: s) (simp_all split: if_splits)

lemma quotient_loop_st_returns:
  "numer \<noteq> denom \<Longrightarrow> denom < length s \<Longrightarrow>
   quotient_loop (s ! numer) idxs (s ! denom) = Returns q \<Longrightarrow>
   quotient_loop_st numer denom idxs s = (s[denom := q], True)"
  by (induction idxs arbitrary: s) (auto split: if_splits)

lemma quotient_loop_st_panics:
  "numer \<noteq> denom \<Longrightarrow> denom < length s \<Longrightarrow>
   quotient_loop (s ! numer) idxs (s ! denom) = Panics \<Longrightarrow>
   snd (quotient_loop_st numer denom idxs s) = False"
  by (induction idxs arbitrary: s) (simp_all split: if_splits)

lemma DividePolyByXminusA_st_refines:
  assumes f: "f < length s" and roots: "roots < length s"
  shows "snd (DividePolyByXminusA_st BatchInvert s cardinality roots f fa a)
           = (case DividePolyByXminusA BatchInvert
                     \<lparr> Cardinality = cardinality, Roots = s ! roots \<rparr> (s ! f) fa a of
                Panics \<Rightarrow> Panics
              | Returns (None, err) \<Rightarrow> Returns (None, err)
              | Returns (Some q, err) \<Rightarrow> Returns (Some (length s + 2), err))
       \<and> (\<forall>q err. DividePolyByXminusA BatchInvert
                     \<lparr> Cardinality = cardinality, Roots = s ! roots \<rparr> (s ! f) fa a
                   = Returns (Some q, err) \<longrightarrow>
             fst (DividePolyByXminusA_st BatchInvert s cardinality roots f fa a)
               ! (length s + 2) = q)"
proof (cases "cardinality \<noteq> length (s ! f)
              \<or> isInDomain \<lparr> Cardinality = cardinality, Roots = s ! roots \<rparr> a")
  case True
  then show ?thesis by (auto simp add: DividePolyByXminusA_st_def DividePolyByXminusA_def)
next
  case False
  let ?n = "length (s ! f)"
  let ?numer = "map (\<lambda>x. x - fa) (s ! f)"
  let ?s1 = "s @ [replicate ?n 0]"
  let ?s2 = "s @ [?numer]"
  let ?s3 = "?s2 @ [replicate ?n 0]"
  have s1f: "?s1 ! f = s ! f" using f by (simp add: nth_append)
  have "numer_loop_st f fa (length s) [0..<length (?s1 ! f)] ?s1
          = ?s1[length s := map (\<lambda>x. x - fa) (?s1 ! f)]"
    using f by (intro numer_loop_st_all) (simp_all add: nth_append)
  then have n2: "numer_loop_st f fa (length s) [0..<?n] ?s1 = ?s2"
    by (simp add: s1f)
  have s3r: "?s3 ! roots = s ! roots" using roots by (simp add: nth_append)
  have s3d: "?s3 ! Suc (length s) = replicate ?n 0"
    by (simp add: nth_append)
  have D: "DividePolyByXminusA BatchInvert
              \<lparr> Cardinality = cardinality, Roots = s ! roots \<rparr> (s ! f) fa a
        = (case denom_loop (s ! roots) a [0..<?n] (replicate ?n 0) of
             Panics \<Rightarrow> Panics
           | Returns denom \<Rightarrow>
               (case quotient_loop ?numer [0..<?n] (BatchInvert denom) of
                  Panics \<Rightarrow> Panics
                | Returns denom \<Rightarrow> Returns (Some denom, None)))"
    using False by (simp add: DividePolyByXminusA_def Let_def split: outcome.splits)
  have Dst: "DividePolyByXminusA_st BatchInvert s cardinality roots f fa a
        = (case denom_loop_st roots a (Suc (length s)) [0..<?n] ?s3 of
             (s4, False) \<Rightarrow> (s4, Panics)
           | (s4, True) \<Rightarrow>
               (case quotient_loop_st (length s) (length s4) [0..<?n]
                       (s4 @ [BatchInvert (s4 ! Suc (length s))]) of
                  (s6, False) \<Rightarrow> (s6, Panics)
                | (s6, True) \<Rightarrow> (s6, Returns (Some (length s4), None))))"
    using False by (simp add: DividePolyByXminusA_st_def make_def Let_def n2)
  show ?thesis
  proof (cases "denom_loop (s ! roots) a [0..<?n] (replicate ?n 0)")
    case Panics
    then have "denom_loop (?s3 ! roots) a [0..<?n] (?s3 ! Suc (length s)) = Panics"
      using s3r s3d by simp
    then have "snd (denom_loop_st roots a (Suc (length s)) [0..<?n] ?s3) = False"
      using roots by (intro denom_loop_st_panics) simp_all
    then show ?thesis using Panics D Dst by (simp split: prod.splits)
  next
    case (Returns d)
    then have "denom_loop (?s3 ! roots) a [0..<?n] (?s3 ! Suc (length s)) = Returns d"
      using s3r s3d by simp
    then have dl: "denom_loop_st roots a (Suc (length s)) [0..<?n] ?s3
                     = (?s3[Suc (length s) := d], True)"
      using roots by (intro denom_loop_st_returns) simp_all
    let ?s4 = "?s3[Suc (length s) := d]"
    let ?s5 = "?s4 @ [BatchInvert (?s4 ! Suc (length s))]"
    have l4: "length ?s4 = length s + 2" by simp
    have s4d: "?s4 ! Suc (length s) = d" by (simp add: nth_append)
    have s5n: "?s5 ! length s = ?numer" by (simp add: nth_append)
    have s5r: "?s5 ! (length s + 2) = BatchInvert d"
      using s4d by (simp add: nth_append)
    show ?thesis
    proof (cases "quotient_loop ?numer [0..<?n] (BatchInvert d)")
      case Panics
      then have "quotient_loop (?s5 ! length s) [0..<?n] (?s5 ! (length s + 2)) = Panics"
        using s5n s5r by simp
      then have "snd (quotient_loop_st (length s) (length s + 2) [0..<?n] ?s5) = False"
        by (intro quotient_loop_st_panics) simp_all
      then show ?thesis using Panics Returns D Dst dl l4 by (simp split: prod.splits)
    next
      case (Returns q)
      then have "quotient_loop (?s5 ! length s) [0..<?n] (?s5 ! (length s + 2)) = Returns q"
        using s5n s5r by simp
      then have "quotient_loop_st (length s) (length s + 2) [0..<?n] ?s5
                   = (?s5[length s + 2 := q], True)"
        by (intro quotient_loop_st_returns) simp_all
      then show ?thesis
        using Returns \<open>denom_loop (s ! roots) a [0..<?n] (replicate ?n 0) = Returns d\<close>
          D Dst dl l4
        by (simp add: nth_append)
    qed
  qed
qed

text \<open>
  C10: whatever \<open>DividePolyByXminusA\<close> returns, and also when it panics, the arrays
  of \<open>f\<close> and of \<^verbatim>\<open>Roots\<close> hold afterwards what they held before, as does every array
  that existed before the call; the slice returned on success is an array that did not
  exist before the call.
\<close>

theorem DividePolyByXminusA_st_no_mutation:
  assumes "f < length s" and "roots < length s"
  shows "fst (DividePolyByXminusA_st BatchInvert s cardinality roots f fa a) ! f = s ! f
       \<and> fst (DividePolyByXminusA_st BatchInvert s cardinality roots f fa a) ! roots = s ! roots
       \<and> take (length s) (fst (DividePolyByXminusA_st BatchInvert s cardinality roots f fa a)) = s
       \<and> (\<forall>q. snd (DividePolyByXminusA_st BatchInvert s cardinality roots f fa a)
                = Returns (Some q, None) \<longrightarrow>
              length s \<le> q
              \<and> q < length (fst (DividePolyByXminusA_st BatchInvert s cardinality roots f fa a)))"
proof -
  let ?s' = "fst (DividePolyByXminusA_st BatchInvert s cardinality roots f fa a)"
  have ext: "extends s ?s'" and fresh:
    "\<forall>q. snd (DividePolyByXminusA_st BatchInvert s cardinality roots f fa a)
            = Returns (Some q, None) \<longrightarrow> length s \<le> q \<and> q < length ?s'"
    using DividePolyByXminusA_st_frame [of s BatchInvert cardinality roots f fa a] by blast+
  have "?s' ! f = s ! f" using ext assms(1) by (rule extends_nth)
  moreover have "?s' ! roots = s ! roots" using ext assms(2) by (rule extends_nth)
  moreover have "take (length s) ?s' = s" using ext by (simp add: extends_def)
  ultimately show ?thesis using fresh by blast
qed

theorem DividePolyByXminusA_st_no_mutation_witness:
  "(0::nat) < length toy_store \<and> (1::nat) < length toy_store
   \<and> DividePolyByXminusA_st (map inverse) toy_store 2 1 0 1 2
       = (toy_store @ [[2, 6], [- 1, - 3], [- 2, - 2]], Returns (Some 4, None))
   \<and> fst (DividePolyByXminusA_st (map inverse) toy_store 2 1 0 1 2) ! 0 = toy_store ! 0
   \<and> fst (DividePolyByXminusA_st (map inverse) toy_store 2 1 0 1 2) ! 1 = toy_store ! 1"
proof -
  have f: "(0::nat) < length toy_store" and r: "(1::nat) < length toy_store"
    by (simp_all add: toy_store_def)
  have "DividePolyByXminusA_st (map inverse) toy_store 2 1 0 1 2
       = (toy_store @ [[2, 6], [- 1, - 3], [- 2, - 2]], Returns (Some 4, None))"
    by (simp add: DividePolyByXminusA_st_def isInDomain_def make_def toy_store_def upt_rec)
  then show ?thesis
    using DividePolyByXminusA_st_no_mutation [OF f r, of "map inverse" 2 1 2] f r by simp
qed

end
